theory Spec2Isabelle
  imports Main "HOL-Library.Sublist"
begin

section \<open>Python string primitives used by nxpkeygen\<close>

text \<open>
  Strings are Python \<open>str\<close> values restricted to ASCII text, modelled as \<open>string\<close>.
  On such text \<open>str.lower\<close> and \<open>str.casefold\<close> coincide: both map \<open>A..Z\<close> to
  \<open>a..z\<close> and leave every other character alone.
\<close>

definition lower_char :: "char \<Rightarrow> char" where
  "lower_char c =
     (case map_of (zip ''ABCDEFGHIJKLMNOPQRSTUVWXYZ'' ''abcdefghijklmnopqrstuvwxyz'') c of
        Some d \<Rightarrow> d
      | None \<Rightarrow> c)"

definition lower :: "string \<Rightarrow> string" where
  "lower s = map lower_char s"

text \<open>\<open>str.isspace\<close> on the code points below 256.\<close>

definition isspace :: "char \<Rightarrow> bool" where
  "isspace c =
     (let n = (of_char c :: nat)
      in (9 \<le> n \<and> n \<le> 13) \<or> (28 \<le> n \<and> n \<le> 32) \<or> n = 133 \<or> n = 160)"

definition strip :: "string \<Rightarrow> string" where
  "strip s = rev (dropWhile isspace (rev (dropWhile isspace s)))"

primrec startswith :: "string \<Rightarrow> string \<Rightarrow> bool" where
  "startswith [] s = True"
| "startswith (c # cs) s = (case s of [] \<Rightarrow> False | d # ds \<Rightarrow> c = d \<and> startswith cs ds)"

text \<open>\<open>sub in s\<close>: some suffix of \<open>s\<close> starts with \<open>sub\<close>.\<close>

primrec str_contains :: "string \<Rightarrow> string \<Rightarrow> bool" where
  "str_contains sub [] = (sub = [])"
| "str_contains sub (c # cs) = (startswith sub (c # cs) \<or> str_contains sub cs)"

text \<open>
  \<open>s.replace(old, new)\<close>: the non-overlapping occurrences of \<open>old\<close> are replaced from
  left to right; an empty \<open>old\<close> matches before every character and at the end.
\<close>

function replace :: "string \<Rightarrow> string \<Rightarrow> string \<Rightarrow> string" where
  "replace old new s =
     (if old = [] then new @ concat (map (\<lambda>c. c # new) s)
      else if s = [] then []
      else if startswith old s then new @ replace old new (drop (length old) s)
      else hd s # replace old new (tl s))"
  by pat_completeness auto
termination
  by (relation "measure (\<lambda>(old, new, s). length s)") auto

declare replace.simps [simp del]

text \<open>
  \<open>int(s)\<close> in base 10: surrounding whitespace is dropped, one sign is allowed, and
  the digits may be grouped by single underscores. Anything else raises \<open>ValueError\<close>
  (the value \<open>None\<close>). The interpreter's limit on the number of digits is not modelled.
\<close>

definition isdigit :: "char \<Rightarrow> bool" where
  "isdigit c = (c \<in> set ''0123456789'')"

definition digit_value :: "char \<Rightarrow> nat" where
  "digit_value c = of_char c - 48"

fun digits_ok :: "bool \<Rightarrow> string \<Rightarrow> bool" where
  "digits_ok prev [] = prev"
| "digits_ok prev (c # cs) =
     (if isdigit c then digits_ok True cs
      else if c = CHR ''_'' \<and> prev then digits_ok False cs
      else False)"

definition py_int :: "string \<Rightarrow> int option" where
  "py_int s =
     (let t = strip s;
          neg = (t \<noteq> [] \<and> hd t = CHR ''-'');
          body = (if t \<noteq> [] \<and> (hd t = CHR ''-'' \<or> hd t = CHR ''+'') then tl t else t);
          n = int (foldl (\<lambda>a c. 10 * a + digit_value c) 0 (filter isdigit body))
      in if digits_ok False body then Some (if neg then - n else n) else None)"

text \<open>\<open>s.rfind(c)\<close> for a single character: the last index of \<open>c\<close>, or \<open>-1\<close>.\<close>

fun rfind :: "char \<Rightarrow> string \<Rightarrow> int" where
  "rfind c [] = - 1"
| "rfind c (x # xs) =
     (let r = rfind c xs in if 0 \<le> r then r + 1 else if x = c then 0 else - 1)"

section \<open>os.path on a POSIX system\<close>

text \<open>
  \<open>os.path.splitext\<close> is \<open>genericpath._splitext\<close> with separator \<open>/\<close>, no alternative
  separator and extension separator \<open>.\<close>. The loop skips the leading dots of the last
  component; it returns at the first character that is not a dot, and falls through
  (\<open>None\<close>) when the component consists of dots up to the last one.
\<close>

function splitext_loop :: "string \<Rightarrow> int \<Rightarrow> int \<Rightarrow> (string \<times> string) option" where
  "splitext_loop p filenameIndex dotIndex =
     (if filenameIndex < dotIndex then
        (if take 1 (drop (nat filenameIndex) p) \<noteq> ''.''
         then Some (take (nat dotIndex) p, drop (nat dotIndex) p)
         else splitext_loop p (filenameIndex + 1) dotIndex)
      else None)"
  by pat_completeness auto
termination
  by (relation "measure (\<lambda>(p, f, d). nat (d - f))") auto

declare splitext_loop.simps [simp del]

definition splitext :: "string \<Rightarrow> string \<times> string" where
  "splitext p =
     (let sepIndex = rfind (CHR ''/'') p;
          dotIndex = rfind (CHR ''.'') p
      in if dotIndex > sepIndex then
           (case splitext_loop p (sepIndex + 1) dotIndex of
              Some r \<Rightarrow> r
            | None \<Rightarrow> (p, take 0 p))
         else (p, take 0 p))"

text \<open>\<open>os.path.basename\<close> and \<open>os.path.dirname\<close> of \<open>posixpath\<close>.\<close>

definition basename :: "string \<Rightarrow> string" where
  "basename p = drop (nat (rfind (CHR ''/'') p + 1)) p"

definition dirname :: "string \<Rightarrow> string" where
  "dirname p =
     (let i = rfind (CHR ''/'') p + 1;
          head = take (nat i) p
      in if head \<noteq> [] \<and> head \<noteq> replicate (length head) (CHR ''/'')
         then rev (dropWhile (\<lambda>c. c = CHR ''/'') (rev head))
         else head)"

section \<open>The world of one invocation\<close>

text \<open>
  The file system maps a path to what is stored there. A private-key file records the
  key and the password it is encrypted under (\<open>None\<close>: not encrypted); a public-key
  file has no password. Keys are opaque: \<open>'k\<close> is the collaborator's private-key
  handle and \<open>'p\<close> its public-key handle.
\<close>

datatype ('k, 'p) node =
    Directory
  | PrivateKeyFile 'k "string option"
  | PublicKeyFile 'p
  | OtherFile string

datatype error =
    InvalidChoice
  | InvalidDestination
  | FileExists
  | ValueError
  | PersistenceFailed string
  | CollaboratorFailure string

text \<open>One event per call that \<open>main\<close> makes, in the order of the calls, with its arguments.\<close>

datatype event =
    CheckDestinationDir string bool
  | CheckFileExists string bool
  | GenerateRsaPrivateKey int
  | GenerateRsaPublicKey
  | SaveRsaPrivateKey string "string option"
  | SaveRsaPublicKey string
  | GenerateEccPrivateKey string
  | GenerateEccPublicKey
  | SaveEccPrivateKey string "string option"
  | SaveEccPublicKey string

record ('k, 'p) world =
  fs :: "string \<Rightarrow> ('k, 'p) node option"
  trace :: "event list"

definition record_event :: "event \<Rightarrow> ('k, 'p) world \<Rightarrow> ('k, 'p) world" where
  "record_event e w = w\<lparr>trace := trace w @ [e]\<rparr>"

text \<open>
  What lies outside the repository is a parameter: the key generators of the
  cryptography library (they draw from its random source and may fail), whether a
  write to a path fails with an I/O error, and whether a missing directory may be
  created.
\<close>

record ('k, 'p) platform =
  rsa_keygen :: "int \<Rightarrow> error + 'k"
  rsa_public :: "'k \<Rightarrow> error + 'p"
  ecc_keygen :: "string \<Rightarrow> error + 'k"
  ecc_public :: "'k \<Rightarrow> error + 'p"
  io_fails :: "string \<Rightarrow> bool"
  dir_creatable :: "string \<Rightarrow> bool \<Rightarrow> bool"

type_synonym ('a, 'k, 'p) result = "(error + 'a) \<times> ('k, 'p) world"

text \<open>Sequencing as Python does it: an exception ends the run with the world as it is.\<close>

definition and_then ::
  "('a, 'k, 'p) result \<Rightarrow> ('a \<Rightarrow> ('k, 'p) world \<Rightarrow> ('b, 'k, 'p) result) \<Rightarrow> ('b, 'k, 'p) result" where
  "and_then r f = (case r of (Inl e, w) \<Rightarrow> (Inl e, w) | (Inr x, w) \<Rightarrow> f x w)"

section \<open>Helpers of \<open>spsdk.apps.utils\<close>\<close>

text \<open>
  Modelled from the spec: \<open>check_destination_dir\<close> is imported from
  \<open>spsdk.apps.utils\<close>, which is not part of the sources at hand. The parent directory
  of the path must exist or be creatable per policy, and the call fails with
  \<open>InvalidDestination\<close> otherwise. The parent of a bare file name is the current
  directory, written as the empty path, which exists.
\<close>

definition check_destination_dir ::
  "('k, 'p) platform \<Rightarrow> string \<Rightarrow> bool \<Rightarrow> ('k, 'p) world \<Rightarrow> (unit, 'k, 'p) result" where
  "check_destination_dir L path create_folder w =
     (let w' = record_event (CheckDestinationDir path create_folder) w;
          dest_dir = dirname path
      in if dest_dir = [] \<or> fs w' dest_dir = Some Directory then (Inr (), w')
         else if dir_creatable L dest_dir create_folder
         then (Inr (), w'\<lparr>fs := (fs w')(dest_dir \<mapsto> Directory)\<rparr>)
         else (Inl InvalidDestination, w'))"

text \<open>
  Modelled from the spec: \<open>check_file_exists\<close> is imported from \<open>spsdk.apps.utils\<close>,
  which is not part of the sources at hand. Without force the call fails with
  \<open>FileExists\<close> when the path exists on disk; with force a file that is there will
  be overwritten.
\<close>

definition check_file_exists ::
  "string \<Rightarrow> bool \<Rightarrow> ('k, 'p) world \<Rightarrow> (unit, 'k, 'p) result" where
  "check_file_exists path force_overwrite w =
     (let w' = record_event (CheckFileExists path force_overwrite) w
      in if \<not> force_overwrite \<and> fs w' path \<noteq> None then (Inl FileExists, w')
         else (Inr (), w'))"

section \<open>The collaborator \<open>spsdk.crypto\<close>\<close>

text \<open>
  Modelled from the spec: \<open>generate_rsa_private_key\<close> of \<open>spsdk.crypto\<close> is not
  part of the sources at hand. It returns an opaque private key for the requested
  modulus size, or fails with an error that the caller passes on.
\<close>

definition generate_rsa_private_key ::
  "('k, 'p) platform \<Rightarrow> int \<Rightarrow> ('k, 'p) world \<Rightarrow> ('k, 'k, 'p) result" where
  "generate_rsa_private_key L key_size w =
     (rsa_keygen L key_size, record_event (GenerateRsaPrivateKey key_size) w)"

text \<open>
  Modelled from the spec: \<open>generate_rsa_public_key\<close> of \<open>spsdk.crypto\<close> is not
  part of the sources at hand. It derives the public key from the private one, or
  fails with an error that the caller passes on.
\<close>

definition generate_rsa_public_key ::
  "('k, 'p) platform \<Rightarrow> 'k \<Rightarrow> ('k, 'p) world \<Rightarrow> ('p, 'k, 'p) result" where
  "generate_rsa_public_key L private_key w =
     (rsa_public L private_key, record_event GenerateRsaPublicKey w)"

text \<open>
  Modelled from the spec: \<open>generate_ecc_private_key\<close> of \<open>spsdk.crypto\<close> is not
  part of the sources at hand. It returns an opaque private key on the named curve,
  or fails with an error that the caller passes on.
\<close>

definition generate_ecc_private_key ::
  "('k, 'p) platform \<Rightarrow> string \<Rightarrow> ('k, 'p) world \<Rightarrow> ('k, 'k, 'p) result" where
  "generate_ecc_private_key L curve_name w =
     (ecc_keygen L curve_name, record_event (GenerateEccPrivateKey curve_name) w)"

text \<open>
  Modelled from the spec: \<open>generate_ecc_public_key\<close> of \<open>spsdk.crypto\<close> is not
  part of the sources at hand. It derives the public key from the private one, or
  fails with an error that the caller passes on.
\<close>

definition generate_ecc_public_key ::
  "('k, 'p) platform \<Rightarrow> 'k \<Rightarrow> ('k, 'p) world \<Rightarrow> ('p, 'k, 'p) result" where
  "generate_ecc_public_key L private_key w =
     (ecc_public L private_key, record_event GenerateEccPublicKey w)"

text \<open>
  Modelled from the spec: the write that the save routines of \<open>spsdk.crypto\<close> make is
  not part of the sources at hand. It replaces what the path holds; an I/O failure is
  \<open>PersistenceFailed\<close> and names the file.
\<close>

definition write_file ::
  "('k, 'p) platform \<Rightarrow> string \<Rightarrow> ('k, 'p) node \<Rightarrow> ('k, 'p) world \<Rightarrow> (unit, 'k, 'p) result" where
  "write_file L path content w =
     (if io_fails L path then (Inl (PersistenceFailed path), w)
      else (Inr (), w\<lparr>fs := (fs w)(path \<mapsto> content)\<rparr>))"

text \<open>
  Modelled from the spec: \<open>save_rsa_private_key\<close> of \<open>spsdk.crypto\<close> is not part of
  the sources at hand. The private key is written to the path, encrypted under the
  password if one is passed and in cleartext-encoded form otherwise.
\<close>

definition save_rsa_private_key ::
  "('k, 'p) platform \<Rightarrow> 'k \<Rightarrow> string \<Rightarrow> string option \<Rightarrow> ('k, 'p) world \<Rightarrow> (unit, 'k, 'p) result" where
  "save_rsa_private_key L private_key file_path password w =
     write_file L file_path (PrivateKeyFile private_key password)
       (record_event (SaveRsaPrivateKey file_path password) w)"

text \<open>
  Modelled from the spec: \<open>save_rsa_public_key\<close> of \<open>spsdk.crypto\<close> is not part of
  the sources at hand. The public key is written to the path, never encrypted.
\<close>

definition save_rsa_public_key ::
  "('k, 'p) platform \<Rightarrow> 'p \<Rightarrow> string \<Rightarrow> ('k, 'p) world \<Rightarrow> (unit, 'k, 'p) result" where
  "save_rsa_public_key L public_key file_path w =
     write_file L file_path (PublicKeyFile public_key)
       (record_event (SaveRsaPublicKey file_path) w)"

text \<open>
  Modelled from the spec: \<open>save_ecc_private_key\<close> of \<open>spsdk.crypto\<close> is not part of
  the sources at hand. The private key is written to the path, encrypted under the
  password if one is passed and in cleartext-encoded form otherwise.
\<close>

definition save_ecc_private_key ::
  "('k, 'p) platform \<Rightarrow> 'k \<Rightarrow> string \<Rightarrow> string option \<Rightarrow> ('k, 'p) world \<Rightarrow> (unit, 'k, 'p) result" where
  "save_ecc_private_key L private_key file_path password w =
     write_file L file_path (PrivateKeyFile private_key password)
       (record_event (SaveEccPrivateKey file_path password) w)"

text \<open>
  Modelled from the spec: \<open>save_ecc_public_key\<close> of \<open>spsdk.crypto\<close> is not part of
  the sources at hand. The public key is written to the path, never encrypted.
\<close>

definition save_ecc_public_key ::
  "('k, 'p) platform \<Rightarrow> 'p \<Rightarrow> string \<Rightarrow> ('k, 'p) world \<Rightarrow> (unit, 'k, 'p) result" where
  "save_ecc_public_key L public_key file_path w =
     write_file L file_path (PublicKeyFile public_key)
       (record_event (SaveEccPublicKey file_path) w)"

section \<open>The key-type catalogue\<close>

text \<open>
  \<open>get_list_of_supported_keys\<close>: the three RSA tokens, extended by the keys of the
  curve registry \<open>ec._CURVE_TYPES\<close> of the cryptography library, which is a parameter.
\<close>

definition get_list_of_supported_keys :: "string list \<Rightarrow> string list" where
  "get_list_of_supported_keys curve_types =
     (let ret = [''rsa2048'', ''rsa3072'', ''rsa4096''] in ret @ curve_types)"

text \<open>
  The decorators of \<open>main\<close> are evaluated when the module is loaded. The option
  \<open>--key-type\<close> calls \<open>get_list_of_supported_keys\<close> for its \<open>click.Choice\<close> and again
  for its help text; the counter is threaded through the calls.
\<close>

definition call_get_list_of_supported_keys :: "string list \<Rightarrow> nat \<Rightarrow> string list \<times> nat" where
  "call_get_list_of_supported_keys curve_types calls =
     (get_list_of_supported_keys curve_types, calls + 1)"

fun join :: "string \<Rightarrow> string list \<Rightarrow> string" where
  "join sep [] = []"
| "join sep [x] = x"
| "join sep (x # y # ys) = x @ sep @ join sep (y # ys)"

record module =
  key_type_choices :: "string list"
  key_type_help_options :: string
  get_list_calls :: nat

definition load_module :: "string list \<Rightarrow> module" where
  "load_module curve_types =
     (let (choices, n1) = call_get_list_of_supported_keys curve_types 0;
          (help_keys, n2) = call_get_list_of_supported_keys curve_types n1
      in \<lparr>key_type_choices = choices,
          key_type_help_options = join '', '' help_keys,
          get_list_calls = n2\<rparr>)"

text \<open>
  \<open>click.Choice(choices, case_sensitive=False)\<close>: the value and the choices are
  case-folded, the folded choices index the original ones (a later choice replaces an
  earlier one with the same folding), and the original choice is what \<open>main\<close> receives.
\<close>

definition choice_convert :: "string list \<Rightarrow> string \<Rightarrow> error + string" where
  "choice_convert choices value =
     (case find (\<lambda>c. lower c = lower value) (rev choices) of
        Some original \<Rightarrow> Inr original
      | None \<Rightarrow> Inl InvalidChoice)"

section \<open>The command\<close>

text \<open>\<open>password if password else None\<close>: \<open>None\<close> and the empty string are falsy.\<close>

definition truthy :: "string option \<Rightarrow> bool" where
  "truthy password = (case password of None \<Rightarrow> False | Some s \<Rightarrow> s \<noteq> [])"

text \<open>The local \<open>pub_key_path\<close> of \<open>main\<close>.\<close>

definition pub_key_path :: "string \<Rightarrow> string" where
  "pub_key_path path = fst (splitext path) @ ''.pub''"

text \<open>
  \<open>main\<close>, statement by statement. The logging calls have no effect on the world and
  are left out; \<open>int\<close> is evaluated before \<open>generate_rsa_private_key\<close> is called.
\<close>

definition main ::
  "('k, 'p) platform \<Rightarrow> string \<Rightarrow> string \<Rightarrow> string \<Rightarrow> string option \<Rightarrow> bool \<Rightarrow>
     ('k, 'p) world \<Rightarrow> (int, 'k, 'p) result" where
  "main L log_level key_type path password force w =
     (let key_param = strip (lower key_type);
          is_rsa = str_contains ''rsa'' key_param
      in
      and_then (check_destination_dir L path force w) (\<lambda>_ w.
      and_then (check_file_exists path force w) (\<lambda>_ w.
      let pub = pub_key_path path in
      and_then (check_file_exists pub force w) (\<lambda>_ w.
      if is_rsa then
        (case py_int (replace ''rsa'' [] key_param) of
           None \<Rightarrow> (Inl ValueError, w)
         | Some key_size \<Rightarrow>
        and_then (generate_rsa_private_key L key_size w) (\<lambda>priv_key_rsa w.
        and_then (generate_rsa_public_key L priv_key_rsa w) (\<lambda>pub_key_rsa w.
        and_then (save_rsa_private_key L priv_key_rsa path
                    (if truthy password then password else None) w) (\<lambda>_ w.
        and_then (save_rsa_public_key L pub_key_rsa pub w) (\<lambda>_ w.
        (Inr 0, w))))))
      else
        and_then (generate_ecc_private_key L key_param w) (\<lambda>priv_key_ec w.
        and_then (generate_ecc_public_key L priv_key_ec w) (\<lambda>pub_key_ec w.
        and_then (save_ecc_private_key L priv_key_ec path
                    (if truthy password then password else None) w) (\<lambda>_ w.
        and_then (save_ecc_public_key L pub_key_ec pub w) (\<lambda>_ w.
        (Inr 0, w)))))))))"

text \<open>
  The command line: \<open>--key-type\<close> defaults to \<open>RSA2048\<close> and goes through the choice
  type before \<open>main\<close> runs; a token that is no choice ends the run at once.
\<close>

definition cli ::
  "('k, 'p) platform \<Rightarrow> module \<Rightarrow> string \<Rightarrow> string option \<Rightarrow> string \<Rightarrow> string option \<Rightarrow> bool \<Rightarrow>
     ('k, 'p) world \<Rightarrow> (int, 'k, 'p) result" where
  "cli L m log_level key_type_arg path password force w =
     (case choice_convert (key_type_choices m)
             (case key_type_arg of None \<Rightarrow> ''RSA2048'' | Some t \<Rightarrow> t) of
        Inl e \<Rightarrow> (Inl e, w)
      | Inr key_type \<Rightarrow> main L log_level key_type path password force w)"


text \<open>
  One process: the module is loaded, then the command runs once. The module is
  returned next to the result of the run.
\<close>

definition run_process ::
  "('k, 'p) platform \<Rightarrow> string list \<Rightarrow> string \<Rightarrow> string option \<Rightarrow> string \<Rightarrow> string option \<Rightarrow>
     bool \<Rightarrow> ('k, 'p) world \<Rightarrow> (int, 'k, 'p) result \<times> module" where
  "run_process L curve_types log_level key_type_arg path password force w =
     (let m = load_module curve_types
      in (cli L m log_level key_type_arg path password force w, m))"

section \<open>The phases of \<open>main\<close>\<close>

text \<open>
  For the proofs the body of \<open>main\<close> is cut into its validation phase and its two
  generation branches; \<open>main_phases\<close> below shows that \<open>main\<close> is their sequence.
\<close>

definition run_checks ::
  "('k, 'p) platform \<Rightarrow> string \<Rightarrow> bool \<Rightarrow> ('k, 'p) world \<Rightarrow> (unit, 'k, 'p) result" where
  "run_checks L path force w =
     and_then (check_destination_dir L path force w) (\<lambda>_ w.
     and_then (check_file_exists path force w) (\<lambda>_ w.
     check_file_exists (pub_key_path path) force w))"

definition rsa_branch ::
  "('k, 'p) platform \<Rightarrow> string \<Rightarrow> string \<Rightarrow> string option \<Rightarrow> ('k, 'p) world \<Rightarrow> (int, 'k, 'p) result" where
  "rsa_branch L key_param path password w =
     (case py_int (replace ''rsa'' [] key_param) of
        None \<Rightarrow> (Inl ValueError, w)
      | Some key_size \<Rightarrow>
        and_then (generate_rsa_private_key L key_size w) (\<lambda>priv_key_rsa w.
        and_then (generate_rsa_public_key L priv_key_rsa w) (\<lambda>pub_key_rsa w.
        and_then (save_rsa_private_key L priv_key_rsa path
                    (if truthy password then password else None) w) (\<lambda>_ w.
        and_then (save_rsa_public_key L pub_key_rsa (pub_key_path path) w) (\<lambda>_ w.
        (Inr 0, w))))))"

definition ecc_branch ::
  "('k, 'p) platform \<Rightarrow> string \<Rightarrow> string \<Rightarrow> string option \<Rightarrow> ('k, 'p) world \<Rightarrow> (int, 'k, 'p) result" where
  "ecc_branch L key_param path password w =
        and_then (generate_ecc_private_key L key_param w) (\<lambda>priv_key_ec w.
        and_then (generate_ecc_public_key L priv_key_ec w) (\<lambda>pub_key_ec w.
        and_then (save_ecc_private_key L priv_key_ec path
                    (if truthy password then password else None) w) (\<lambda>_ w.
        and_then (save_ecc_public_key L pub_key_ec (pub_key_path path) w) (\<lambda>_ w.
        (Inr 0, w)))))"

definition generate ::
  "('k, 'p) platform \<Rightarrow> string \<Rightarrow> string \<Rightarrow> string option \<Rightarrow> ('k, 'p) world \<Rightarrow> (int, 'k, 'p) result" where
  "generate L key_param path password w =
     (if str_contains ''rsa'' key_param then rsa_branch L key_param path password w
      else ecc_branch L key_param path password w)"

section \<open>What the claims speak of\<close>

text \<open>The password that reaches the save routine of the private key.\<close>

definition password_passed :: "string option \<Rightarrow> string option" where
  "password_passed password =
     (case password of None \<Rightarrow> None | Some pw \<Rightarrow> if pw = [] then None else Some pw)"

text \<open>The fixed order of the steps: the three checks, then generation, then the writes.\<close>

definition check_steps :: "string \<Rightarrow> bool \<Rightarrow> event list" where
  "check_steps path force =
     [CheckDestinationDir path force, CheckFileExists path force,
      CheckFileExists (pub_key_path path) force]"

definition rsa_steps :: "int \<Rightarrow> string \<Rightarrow> string option \<Rightarrow> event list" where
  "rsa_steps key_size path password =
     [GenerateRsaPrivateKey key_size, GenerateRsaPublicKey,
      SaveRsaPrivateKey path (password_passed password), SaveRsaPublicKey (pub_key_path path)]"

definition ecc_steps :: "string \<Rightarrow> string \<Rightarrow> string option \<Rightarrow> event list" where
  "ecc_steps curve_name path password =
     [GenerateEccPrivateKey curve_name, GenerateEccPublicKey,
      SaveEccPrivateKey path (password_passed password), SaveEccPublicKey (pub_key_path path)]"

definition generation_steps :: "string \<Rightarrow> string \<Rightarrow> string option \<Rightarrow> event list" where
  "generation_steps key_param path password =
     (if str_contains ''rsa'' key_param then
        (case py_int (replace ''rsa'' [] key_param) of
           None \<Rightarrow> []
         | Some key_size \<Rightarrow> rsa_steps key_size path password)
      else ecc_steps key_param path password)"

definition expected_steps :: "string \<Rightarrow> string \<Rightarrow> string option \<Rightarrow> bool \<Rightarrow> event list" where
  "expected_steps key_type path password force =
     check_steps path force @ generation_steps (strip (lower key_type)) path password"

text \<open>A path that is on disk lies in a directory that is on disk.\<close>

definition parent_exists :: "('k, 'p) world \<Rightarrow> string \<Rightarrow> bool" where
  "parent_exists w p = (dirname p = [] \<or> fs w (dirname p) = Some Directory)"

text \<open>
  The output paths are free when force is set or neither of them is on disk; together
  with \<open>parent_exists\<close> this is when the three checks pass. The world after the checks
  has their three events in its trace and is otherwise unchanged.
\<close>

definition paths_free :: "('k, 'p) world \<Rightarrow> string \<Rightarrow> bool \<Rightarrow> bool" where
  "paths_free w path force =
     (force \<or> (fs w path = None \<and> fs w (pub_key_path path) = None))"

definition after_checks :: "('k, 'p) world \<Rightarrow> string \<Rightarrow> bool \<Rightarrow> ('k, 'p) world" where
  "after_checks w path force = w\<lparr>trace := trace w @ check_steps path force\<rparr>"

text \<open>
  A platform and worlds to run the command on: keys are numbers, the RSA key is its
  size and the curve key the length of the curve's name, the public key is the
  successor of the private one, no write fails, and a
  missing directory is created when the flag is set.
\<close>

definition demo_platform :: "(nat, nat) platform" where
  "demo_platform =
     \<lparr>rsa_keygen = (\<lambda>n. Inr (nat n)), rsa_public = (\<lambda>k. Inr (Suc k)),
      ecc_keygen = (\<lambda>c. Inr (length c)), ecc_public = (\<lambda>k. Inr (Suc k)),
      io_fails = (\<lambda>_. False), dir_creatable = (\<lambda>d create. create)\<rparr>"

definition empty_dir_world :: "(nat, nat) world" where
  "empty_dir_world = \<lparr>fs = [''/tmp/out'' \<mapsto> Directory], trace = []\<rparr>"

definition used_dir_world :: "(nat, nat) world" where
  "used_dir_world =
     \<lparr>fs = [''/tmp/out'' \<mapsto> Directory, ''/tmp/out/key.pub'' \<mapsto> OtherFile ''old''],
      trace = []\<rparr>"

section \<open>Lemmas on the string and path primitives\<close>

lemma rfind_bounds: "- 1 \<le> rfind c s \<and> rfind c s < int (length s)"
  by (induction s) (auto simp: Let_def)

lemma rfind_notin: "rfind c s = - 1 \<longleftrightarrow> c \<notin> set s"
proof (induction s)
  case Nil
  show ?case by simp
next
  case (Cons x xs)
  from rfind_bounds [of c xs] Cons show ?case
    by (auto simp: Let_def)
qed

lemma rfind_append:
  "rfind c (xs @ ys) = (if c \<in> set ys then int (length xs) + rfind c ys else rfind c xs)"
proof (induction xs)
  case Nil
  from rfind_notin [of c ys] show ?case by auto
next
  case (Cons x xs)
  from rfind_bounds [of c ys] rfind_notin [of c ys] Cons show ?case
    by (auto simp: Let_def)
qed

lemma rfind_take:
  assumes "rfind c p < int d"
  shows "rfind c (take d p) = rfind c p"
proof (cases "c \<in> set (drop d p)")
  case True
  then have "d < length p" by (cases "d < length p") auto
  with True rfind_append [of c "take d p" "drop d p"] rfind_bounds [of c "drop d p"]
    rfind_notin [of c "drop d p"] assms
  show ?thesis by (auto simp: min_def)
next
  case False
  with rfind_append [of c "take d p" "drop d p"] show ?thesis by simp
qed

lemma splitext_loop_Some:
  "splitext_loop p f d = Some r \<Longrightarrow> r = (take (nat d) p, drop (nat d) p)"
proof (induction p f d rule: splitext_loop.induct)
  case (1 p f d)
  then show ?case
    by (subst (asm) (2) splitext_loop.simps) (auto split: if_splits)
qed

lemma splitext_cases:
  "splitext p = (p, []) \<or>
   (rfind (CHR ''/'') p < rfind (CHR ''.'') p \<and>
    splitext p = (take (nat (rfind (CHR ''.'') p)) p, drop (nat (rfind (CHR ''.'') p)) p))"
  by (auto simp: splitext_def Let_def split: option.splits dest: splitext_loop_Some)


lemma splitext_no_dot:
  assumes "CHR ''.'' \<notin> set (basename p)"
  shows "splitext p = (p, [])"
proof -
  let ?i = "nat (rfind (CHR ''/'') p + 1)"
  from assms have "CHR ''.'' \<notin> set (drop ?i p)" by (simp add: basename_def)
  with rfind_append [of "CHR ''.''" "take ?i p" "drop ?i p"]
  have "rfind (CHR ''.'') p = rfind (CHR ''.'') (take ?i p)" by simp
  with rfind_bounds [of "CHR ''.''" "take ?i p"] rfind_bounds [of "CHR ''/''" p]
  have "rfind (CHR ''.'') p \<le> rfind (CHR ''/'') p" by auto
  then show ?thesis by (simp add: splitext_def Let_def)
qed

lemma rfind_sep_root: "rfind (CHR ''/'') (fst (splitext p)) = rfind (CHR ''/'') p"
  using splitext_cases [of p] rfind_bounds [of "CHR ''/''" p]
  by (auto simp: rfind_take)

lemma take_sep_root:
  "take (nat (rfind (CHR ''/'') p + 1)) (fst (splitext p)) = take (nat (rfind (CHR ''/'') p + 1)) p"
  using splitext_cases [of p] rfind_bounds [of "CHR ''/''" p]
  by (auto simp: min_def)

lemma rfind_sep_pub: "rfind (CHR ''/'') (pub_key_path p) = rfind (CHR ''/'') p"
  by (simp add: pub_key_path_def rfind_append rfind_sep_root)

lemma dirname_pub_key_path: "dirname (pub_key_path p) = dirname p"
proof -
  let ?i = "nat (rfind (CHR ''/'') p + 1)"
  from rfind_bounds [of "CHR ''/''" "fst (splitext p)"]
  have "?i \<le> length (fst (splitext p))" unfolding rfind_sep_root by linarith
  then have "take ?i (pub_key_path p) = take ?i p"
    by (simp add: pub_key_path_def take_sep_root)
  then show ?thesis unfolding dirname_def Let_def rfind_sep_pub by simp
qed


section \<open>Lemmas on the phases\<close>

lemmas check_defs = and_then_def check_destination_dir_def check_file_exists_def
  record_event_def

lemmas crypto_defs = and_then_def record_event_def generate_rsa_private_key_def
  generate_rsa_public_key_def generate_ecc_private_key_def generate_ecc_public_key_def
  save_rsa_private_key_def save_rsa_public_key_def save_ecc_private_key_def
  save_ecc_public_key_def write_file_def

lemma password_passed_truthy:
  "(if truthy password then password else None) = password_passed password"
  by (simp add: truthy_def password_passed_def split: option.splits)

lemma and_then_assoc:
  "and_then (and_then r f) g = and_then r (\<lambda>x w. and_then (f x w) g)"
  by (cases r) (auto simp: and_then_def split: sum.splits)

lemma main_phases:
  "main L log_level key_type path password force w =
     and_then (run_checks L path force w) (\<lambda>_ w.
       if str_contains ''rsa'' (strip (lower key_type))
       then rsa_branch L (strip (lower key_type)) path password w
       else ecc_branch L (strip (lower key_type)) path password w)"
  unfolding main_def run_checks_def rsa_branch_def ecc_branch_def and_then_assoc Let_def
  by (rule refl)

lemma main_generate:
  "main L log_level key_type path password force w =
     and_then (run_checks L path force w) (\<lambda>_ w.
       generate L (strip (lower key_type)) path password w)"
  by (simp add: main_phases generate_def)

lemma run_checks_ok:
  assumes "run_checks L path force w = (Inr u, w1)"
  shows "trace w1 = trace w @ check_steps path force"
    and "fs w1 = fs w \<or>
         (dirname path \<noteq> [] \<and> fs w (dirname path) \<noteq> Some Directory \<and>
          fs w1 = (fs w)(dirname path \<mapsto> Directory))"
    and "\<not> force \<Longrightarrow> fs w1 path = None \<and> fs w1 (pub_key_path path) = None"
  using assms unfolding run_checks_def check_defs check_steps_def Let_def
  by (auto split: if_splits)

lemma run_checks_fail:
  assumes "run_checks L path force w = (Inl e, w1)"
  shows "\<exists>evs. trace w1 = trace w @ evs \<and> prefix evs (check_steps path force)"
    and "e = InvalidDestination \<or> e = FileExists"
  using assms unfolding run_checks_def check_defs check_steps_def Let_def
  by (auto split: if_splits)

lemma run_checks_exists:
  assumes "\<not> force"
    and "dirname path = [] \<or> fs w (dirname path) = Some Directory"
    and "fs w path \<noteq> None \<or> fs w (pub_key_path path) \<noteq> None"
  shows "\<exists>evs. run_checks L path force w = (Inl FileExists, w\<lparr>trace := trace w @ evs\<rparr>) \<and>
           (evs = [CheckDestinationDir path force, CheckFileExists path force] \<or>
            evs = check_steps path force)"
  using assms unfolding run_checks_def check_defs check_steps_def Let_def
  by (auto split: if_splits)

lemma rsa_branch_eq:
  "rsa_branch L key_param path password w =
     (let pw = password_passed password;
          pub = pub_key_path path
      in case py_int (replace ''rsa'' [] key_param) of
           None \<Rightarrow> (Inl ValueError, w)
         | Some n \<Rightarrow>
           (case rsa_keygen L n of
              Inl e \<Rightarrow> (Inl e, w\<lparr>trace := trace w @ [GenerateRsaPrivateKey n]\<rparr>)
            | Inr k \<Rightarrow>
              (case rsa_public L k of
                 Inl e \<Rightarrow>
                   (Inl e, w\<lparr>trace := trace w @ [GenerateRsaPrivateKey n,
                                                    GenerateRsaPublicKey]\<rparr>)
               | Inr q \<Rightarrow>
                   if io_fails L path
                   then (Inl (PersistenceFailed path),
                         w\<lparr>trace := trace w @ [GenerateRsaPrivateKey n, GenerateRsaPublicKey,
                                                SaveRsaPrivateKey path pw]\<rparr>)
                   else if io_fails L pub
                   then (Inl (PersistenceFailed pub),
                         w\<lparr>fs := (fs w)(path \<mapsto> PrivateKeyFile k pw),
                           trace := trace w @ rsa_steps n path password\<rparr>)
                   else (Inr 0,
                         w\<lparr>fs := (fs w)(path \<mapsto> PrivateKeyFile k pw,
                                         pub \<mapsto> PublicKeyFile q),
                           trace := trace w @ rsa_steps n path password\<rparr>))))"
  unfolding rsa_branch_def password_passed_truthy
  by (simp add: crypto_defs rsa_steps_def Let_def split: option.splits sum.splits)

lemma ecc_branch_eq:
  "ecc_branch L key_param path password w =
     (let pw = password_passed password;
          pub = pub_key_path path
      in case ecc_keygen L key_param of
           Inl e \<Rightarrow> (Inl e, w\<lparr>trace := trace w @ [GenerateEccPrivateKey key_param]\<rparr>)
         | Inr k \<Rightarrow>
           (case ecc_public L k of
              Inl e \<Rightarrow>
                (Inl e, w\<lparr>trace := trace w @ [GenerateEccPrivateKey key_param,
                                                 GenerateEccPublicKey]\<rparr>)
            | Inr q \<Rightarrow>
                if io_fails L path
                then (Inl (PersistenceFailed path),
                      w\<lparr>trace := trace w @ [GenerateEccPrivateKey key_param,
                                             GenerateEccPublicKey,
                                             SaveEccPrivateKey path pw]\<rparr>)
                else if io_fails L pub
                then (Inl (PersistenceFailed pub),
                      w\<lparr>fs := (fs w)(path \<mapsto> PrivateKeyFile k pw),
                        trace := trace w @ ecc_steps key_param path password\<rparr>)
                else (Inr 0,
                      w\<lparr>fs := (fs w)(path \<mapsto> PrivateKeyFile k pw,
                                      pub \<mapsto> PublicKeyFile q),
                        trace := trace w @ ecc_steps key_param path password\<rparr>)))"
  unfolding ecc_branch_def password_passed_truthy
  by (simp add: crypto_defs ecc_steps_def Let_def split: option.splits sum.splits)

lemma generate_trace:
  "\<exists>evs. trace (snd (generate L key_param path password w)) = trace w @ evs \<and>
         prefix evs (generation_steps key_param path password) \<and>
         (fst (generate L key_param path password w) = Inr 0 \<longrightarrow>
            evs = generation_steps key_param path password)"
  by (auto simp: generate_def rsa_branch_eq ecc_branch_eq generation_steps_def Let_def
           rsa_steps_def ecc_steps_def split: option.splits sum.splits)

lemma generate_success:
  assumes "generate L key_param path password w = (Inr r, w')"
  shows "\<exists>k q. fs w' = (fs w)(path \<mapsto> PrivateKeyFile k (password_passed password),
                              pub_key_path path \<mapsto> PublicKeyFile q)"
  using assms
  by (auto simp: generate_def rsa_branch_eq ecc_branch_eq Let_def
           split: option.splits sum.splits if_splits) blast+

lemma main_trace:
  "\<exists>evs. trace (snd (main L log_level key_type path password force w)) = trace w @ evs \<and>
         prefix evs (expected_steps key_type path password force) \<and>
         (fst (main L log_level key_type path password force w) = Inr 0 \<longrightarrow>
            evs = expected_steps key_type path password force)"
proof (cases "run_checks L path force w")
  case (Pair r w1)
  show ?thesis
  proof (cases r)
    case (Inl e)
    with Pair have m: "main L log_level key_type path password force w = (Inl e, w1)"
      by (simp add: main_generate and_then_def)
    from run_checks_fail(1) [of L path force w e w1] Pair Inl obtain evs where
      "trace w1 = trace w @ evs" "prefix evs (check_steps path force)"
      by auto
    then show ?thesis
      by (auto simp: m expected_steps_def intro: prefix_prefix)
  next
    case (Inr u)
    with Pair have m: "main L log_level key_type path password force w =
        generate L (strip (lower key_type)) path password w1"
      by (simp add: main_generate and_then_def)
    from run_checks_ok(1) [of L path force w u w1] Pair Inr
    have t: "trace w1 = trace w @ check_steps path force" by simp
    from generate_trace [of L "strip (lower key_type)" path password w1]
    obtain evs where
      e: "trace (snd (generate L (strip (lower key_type)) path password w1)) = trace w1 @ evs"
         "prefix evs (generation_steps (strip (lower key_type)) path password)"
         "fst (generate L (strip (lower key_type)) path password w1) = Inr 0 \<longrightarrow>
            evs = generation_steps (strip (lower key_type)) path password"
      by blast
    from e t show ?thesis
      by (intro exI [of _ "check_steps path force @ evs"]) (simp add: m expected_steps_def)
  qed
qed

lemma main_success:
  assumes "main L log_level key_type path password force w = (Inr r, w')"
  shows "\<exists>k q. fs w' (pub_key_path path) = Some (PublicKeyFile q) \<and>
           (path \<noteq> pub_key_path path \<longrightarrow>
              fs w' path = Some (PrivateKeyFile k (password_passed password)))"
proof (cases "run_checks L path force w")
  case (Pair c w1)
  with assms obtain u where "c = Inr u"
    by (cases c) (auto simp: main_generate and_then_def)
  with Pair assms have "generate L (strip (lower key_type)) path password w1 = (Inr r, w')"
    by (simp add: main_generate and_then_def)
  from generate_success [OF this] show ?thesis by auto
qed


lemma expected_private_saves:
  assumes "ev \<in> set (expected_steps key_type path password force)"
    and "ev = SaveRsaPrivateKey p q \<or> ev = SaveEccPrivateKey p q"
  shows "p = path \<and> q = password_passed password"
  using assms
  by (auto simp: expected_steps_def check_steps_def generation_steps_def rsa_steps_def
        ecc_steps_def split: if_splits option.splits)

lemma expected_has_private_save:
  assumes "expected_steps key_type path password force = evs"
    and "generation_steps (strip (lower key_type)) path password \<noteq> []"
  shows "SaveRsaPrivateKey path (password_passed password) \<in> set evs \<or>
         SaveEccPrivateKey path (password_passed password) \<in> set evs"
  using assms
  by (auto simp: expected_steps_def check_steps_def generation_steps_def rsa_steps_def
        ecc_steps_def split: if_splits option.splits)

lemma generate_success_trace:
  assumes "generate L key_param path password w = (Inr r, w')"
  shows "r = 0 \<and> trace w' = trace w @ generation_steps key_param path password \<and>
         generation_steps key_param path password \<noteq> []"
  using assms
  by (auto simp: generate_def rsa_branch_eq ecc_branch_eq Let_def generation_steps_def
           rsa_steps_def ecc_steps_def split: option.splits sum.splits if_splits)

lemma main_success_trace:
  assumes "main L log_level key_type path password force w = (Inr r, w')"
  shows "r = 0 \<and> trace w' = trace w @ expected_steps key_type path password force \<and>
         generation_steps (strip (lower key_type)) path password \<noteq> []"
proof (cases "run_checks L path force w")
  case (Pair c w1)
  with assms obtain u where u: "c = Inr u"
    by (cases c) (auto simp: main_generate and_then_def)
  with Pair assms have g: "generate L (strip (lower key_type)) path password w1 = (Inr r, w')"
    by (simp add: main_generate and_then_def)
  from run_checks_ok(1) [of L path force w u w1] Pair u
  have "trace w1 = trace w @ check_steps path force" by simp
  with generate_success_trace [OF g] show ?thesis
    by (simp add: expected_steps_def)
qed

section \<open>Lemmas on the catalogue\<close>


lemma key_type_choices_load:
  "key_type_choices (load_module curve_types) =
     ''rsa2048'' # ''rsa3072'' # ''rsa4096'' # curve_types"
  by (simp add: load_module_def call_get_list_of_supported_keys_def
        get_list_of_supported_keys_def)


lemma expected_steps_rsa_tokens:
  "expected_steps ''rsa2048'' path password force = check_steps path force @ rsa_steps 2048 path password"
  "expected_steps ''rsa3072'' path password force = check_steps path force @ rsa_steps 3072 path password"
  "expected_steps ''rsa4096'' path password force = check_steps path force @ rsa_steps 4096 path password"
  by (simp_all add: expected_steps_def generation_steps_def strip_def lower_def lower_char_def
        isspace_def replace.simps py_int_def isdigit_def digit_value_def Let_def)


section \<open>Lemmas on complete runs\<close>

lemma run_checks_pass:
  assumes "parent_exists w path" and "paths_free w path force"
  shows "run_checks L path force w = (Inr (), after_checks w path force)"
  using assms
  unfolding run_checks_def check_defs check_steps_def Let_def parent_exists_def
    paths_free_def after_checks_def
  by auto

lemma main_after_checks:
  assumes "parent_exists w path" and "paths_free w path force"
  shows "main L log_level key_type path password force w =
           generate L (strip (lower key_type)) path password (after_checks w path force)"
  by (simp add: main_generate run_checks_pass [OF assms] and_then_def)

lemma generate_ecc_called:
  assumes "\<not> str_contains ''rsa'' key_param"
  shows "\<exists>evs. trace (snd (generate L key_param path password w)) =
                 trace w @ GenerateEccPrivateKey key_param # evs"
  using assms
  by (auto simp: generate_def ecc_branch_eq Let_def ecc_steps_def split: sum.splits)

lemma generate_ecc_ok:
  assumes "\<not> str_contains ''rsa'' key_param"
    and "ecc_keygen L key_param = Inr k" and "ecc_public L k = Inr q"
    and "\<not> io_fails L path" and "\<not> io_fails L (pub_key_path path)"
  shows "generate L key_param path password w =
           (Inr 0, w\<lparr>fs := (fs w)(path \<mapsto> PrivateKeyFile k (password_passed password),
                                   pub_key_path path \<mapsto> PublicKeyFile q),
                      trace := trace w @ ecc_steps key_param path password\<rparr>)"
  using assms by (simp add: generate_def ecc_branch_eq Let_def)



lemma find_Some_member:
  "find P xs = Some x \<Longrightarrow> x \<in> set xs \<and> P x"
  by (induction xs) (auto split: if_splits)

lemma choice_convert_Inr:
  assumes "choice_convert choices t = Inr c"
  shows "c \<in> set choices \<and> lower c = lower t"
proof -
  from assms have "find (\<lambda>c. lower c = lower t) (rev choices) = Some c"
    by (simp add: choice_convert_def split: option.splits)
  from find_Some_member [OF this] show ?thesis by simp
qed



lemma main_ecc_run:
  assumes "\<not> str_contains ''rsa'' (strip (lower key_type))"
  shows "(\<exists>evs. trace (snd (main L log_level key_type path password force w)) = trace w @ evs \<and>
            prefix evs (check_steps path force @
                        ecc_steps (strip (lower key_type)) path password) \<and>
            (fst (main L log_level key_type path password force w) = Inr 0 \<longrightarrow>
               evs = check_steps path force @
                     ecc_steps (strip (lower key_type)) path password)) \<and>
         (parent_exists w path \<and> paths_free w path force \<longrightarrow>
            (\<exists>evs. trace (snd (main L log_level key_type path password force w)) =
                     trace w @ check_steps path force @
                     GenerateEccPrivateKey (strip (lower key_type)) # evs)) \<and>
         (\<forall>k q. parent_exists w path \<and> paths_free w path force \<and>
                 ecc_keygen L (strip (lower key_type)) = Inr k \<and> ecc_public L k = Inr q \<and>
                 \<not> io_fails L path \<and> \<not> io_fails L (pub_key_path path) \<longrightarrow>
            main L log_level key_type path password force w =
              (Inr 0,
               w\<lparr>fs := (fs w)(path \<mapsto> PrivateKeyFile k (password_passed password),
                               pub_key_path path \<mapsto> PublicKeyFile q),
                 trace := trace w @ check_steps path force @
                          ecc_steps (strip (lower key_type)) path password\<rparr>))"
proof (intro conjI allI impI)
  from main_trace [of L log_level key_type path password force w] assms
  show "\<exists>evs. trace (snd (main L log_level key_type path password force w)) = trace w @ evs \<and>
            prefix evs (check_steps path force @
                        ecc_steps (strip (lower key_type)) path password) \<and>
            (fst (main L log_level key_type path password force w) = Inr 0 \<longrightarrow>
               evs = check_steps path force @
                     ecc_steps (strip (lower key_type)) path password)"
    by (simp add: expected_steps_def generation_steps_def)
next
  assume a: "parent_exists w path \<and> paths_free w path force"
  from generate_ecc_called [OF assms, of L path password "after_checks w path force"]
  show "\<exists>evs. trace (snd (main L log_level key_type path password force w)) =
                     trace w @ check_steps path force @
                     GenerateEccPrivateKey (strip (lower key_type)) # evs"
    using a by (simp add: main_after_checks after_checks_def)
next
  fix k q
  assume a: "parent_exists w path \<and> paths_free w path force \<and>
                 ecc_keygen L (strip (lower key_type)) = Inr k \<and> ecc_public L k = Inr q \<and>
                 \<not> io_fails L path \<and> \<not> io_fails L (pub_key_path path)"
  then have "generate L (strip (lower key_type)) path password (after_checks w path force) =
           (Inr 0, (after_checks w path force)
              \<lparr>fs := (fs (after_checks w path force))
                       (path \<mapsto> PrivateKeyFile k (password_passed password),
                        pub_key_path path \<mapsto> PublicKeyFile q),
                trace := trace (after_checks w path force) @
                         ecc_steps (strip (lower key_type)) path password\<rparr>)"
    using assms by (intro generate_ecc_ok) simp_all
  with a show "main L log_level key_type path password force w =
              (Inr 0,
               w\<lparr>fs := (fs w)(path \<mapsto> PrivateKeyFile k (password_passed password),
                               pub_key_path path \<mapsto> PublicKeyFile q),
                 trace := trace w @ check_steps path force @
                          ecc_steps (strip (lower key_type)) path password\<rparr>)"
    by (simp add: main_after_checks after_checks_def)
qed


section \<open>Evaluation on concrete inputs\<close>

lemmas run_defs = main_def and_then_def check_destination_dir_def check_file_exists_def
  record_event_def pub_key_path_def splitext_def splitext_loop.simps dirname_def
  generate_rsa_private_key_def generate_rsa_public_key_def generate_ecc_private_key_def
  generate_ecc_public_key_def save_rsa_private_key_def save_rsa_public_key_def
  save_ecc_private_key_def save_ecc_public_key_def write_file_def truthy_def
  strip_def lower_def lower_char_def isspace_def py_int_def isdigit_def digit_value_def
  replace.simps Let_def demo_platform_def empty_dir_world_def used_dir_world_def
  parent_exists_def check_steps_def password_passed_def

section \<open>The claims\<close>

text \<open>
  C1. Without force, when the private-key path or the derived public-key path is on
  disk (in a directory that is on disk, as every file is), the run ends with
  \<open>FileExists\<close>; the world it leaves differs from the initial one in the trace
  only, so no file is touched, and the trace holds the destination check and one or
  both existence checks and nothing else: no key is generated and nothing is written.
\<close>

theorem existing_file_is_refused:
  assumes "\<not> force"
    and "fs w path \<noteq> None \<or> fs w (pub_key_path path) \<noteq> None"
    and "fs w path \<noteq> None \<longrightarrow> parent_exists w path"
    and "fs w (pub_key_path path) \<noteq> None \<longrightarrow> parent_exists w (pub_key_path path)"
  shows "\<exists>evs. main L log_level key_type path password force w =
                 (Inl FileExists, w\<lparr>trace := trace w @ evs\<rparr>) \<and>
               (evs = [CheckDestinationDir path force, CheckFileExists path force] \<or>
                evs = [CheckDestinationDir path force, CheckFileExists path force,
                       CheckFileExists (pub_key_path path) force])"
proof -
  from assms(2-4) have "dirname path = [] \<or> fs w (dirname path) = Some Directory"
    by (auto simp: parent_exists_def dirname_pub_key_path)
  from run_checks_exists [OF assms(1) this assms(2), of L] show ?thesis
    by (auto simp: main_generate and_then_def check_steps_def)
qed

text \<open>
  The theorem at work: \<open>/tmp/out/key.pub\<close> is on disk, \<open>/tmp/out/key.pem\<close> is asked for.
\<close>

theorem existing_file_is_refused_witness:
  "fs used_dir_world (pub_key_path ''/tmp/out/key.pem'') \<noteq> None \<and>
   parent_exists used_dir_world (pub_key_path ''/tmp/out/key.pem'') \<and>
   (\<exists>evs. main demo_platform ''warning'' ''rsa2048'' ''/tmp/out/key.pem'' None False
             used_dir_world =
           (Inl FileExists, used_dir_world\<lparr>trace := trace used_dir_world @ evs\<rparr>) \<and>
           (evs = [CheckDestinationDir ''/tmp/out/key.pem'' False,
                   CheckFileExists ''/tmp/out/key.pem'' False] \<or>
            evs = [CheckDestinationDir ''/tmp/out/key.pem'' False,
                   CheckFileExists ''/tmp/out/key.pem'' False,
                   CheckFileExists (pub_key_path ''/tmp/out/key.pem'') False]))"
proof -
  have p: "pub_key_path ''/tmp/out/key.pem'' = ''/tmp/out/key.pub''"
    by (simp add: pub_key_path_def splitext_def splitext_loop.simps Let_def)
  have a: "\<not> False" by simp
  have b: "fs used_dir_world ''/tmp/out/key.pem'' \<noteq> None \<or>
           fs used_dir_world (pub_key_path ''/tmp/out/key.pem'') \<noteq> None"
    by (simp add: p used_dir_world_def)
  have c: "fs used_dir_world ''/tmp/out/key.pem'' \<noteq> None \<longrightarrow>
           parent_exists used_dir_world ''/tmp/out/key.pem''"
    by (simp add: used_dir_world_def)
  have d: "parent_exists used_dir_world (pub_key_path ''/tmp/out/key.pem'')"
    by (simp add: p used_dir_world_def parent_exists_def dirname_def Let_def)
  have e: "fs used_dir_world (pub_key_path ''/tmp/out/key.pem'') \<noteq> None"
    by (simp add: p used_dir_world_def)
  from d have d': "fs used_dir_world (pub_key_path ''/tmp/out/key.pem'') \<noteq> None \<longrightarrow>
           parent_exists used_dir_world (pub_key_path ''/tmp/out/key.pem'')" by simp
  from existing_file_is_refused
    [OF a b c d', of demo_platform "''warning''" "''rsa2048''" None] d e
  show ?thesis by blast
qed

text \<open>
  C2. The claim that the derived public-key path always differs from the private-key
  path fails on the code when the private-key path itself ends in \<open>.pub\<close>: the
  extension is replaced by itself, the two paths are one, and the successful run
  leaves the public key in the file, written over the private key.
\<close>

theorem pub_extension_collides:
  "pub_key_path ''/tmp/out/key.pub'' = ''/tmp/out/key.pub'' \<and>
   fst (main demo_platform ''warning'' ''rsa2048'' ''/tmp/out/key.pub'' None False
          empty_dir_world) = Inr 0 \<and>
   fs (snd (main demo_platform ''warning'' ''rsa2048'' ''/tmp/out/key.pub'' None False
          empty_dir_world)) ''/tmp/out/key.pub'' = Some (PublicKeyFile 2049)"
  by (simp add: run_defs)



text \<open>
  C4. The claim that an empty password is handled as a present one fails on the code:
  with the empty string as password the save routine of the private key is called
  with no password.
\<close>

theorem empty_password_counterexample:
  "trace (snd (main demo_platform ''warning'' ''rsa2048'' ''/tmp/out/key.pem'' (Some [])
                 False empty_dir_world)) ! 5 = SaveRsaPrivateKey ''/tmp/out/key.pem'' None"
  by (simp add: run_defs)

text \<open>
  C4, as the code has it. Every call of a private-key save routine is made with the
  private-key path and with \<open>password_passed\<close> of the password: the password itself
  when it is present and not empty, and none when it is absent or empty. A successful
  run makes such a call.
\<close>

theorem password_reaches_save_routine:
  "\<exists>evs. trace (snd (main L log_level key_type path password force w)) = trace w @ evs \<and>
     (\<forall>ev \<in> set evs. \<forall>p q. ev = SaveRsaPrivateKey p q \<or> ev = SaveEccPrivateKey p q \<longrightarrow>
        p = path \<and> q = password_passed password) \<and>
     (fst (main L log_level key_type path password force w) = Inr 0 \<longrightarrow>
        SaveRsaPrivateKey path (password_passed password) \<in> set evs \<or>
        SaveEccPrivateKey path (password_passed password) \<in> set evs)"
proof -
  let ?m = "main L log_level key_type path password force w"
  from main_trace [of L log_level key_type path password force w] obtain evs where
    t: "trace (snd ?m) = trace w @ evs" and
    p: "prefix evs (expected_steps key_type path password force)" and
    s: "fst ?m = Inr 0 \<longrightarrow> evs = expected_steps key_type path password force"
    by blast
  from p have sub: "set evs \<subseteq> set (expected_steps key_type path password force)"
    by (rule set_mono_prefix)
  have a: "\<forall>ev \<in> set evs. \<forall>p q. ev = SaveRsaPrivateKey p q \<or> ev = SaveEccPrivateKey p q \<longrightarrow>
        p = path \<and> q = password_passed password"
    using sub expected_private_saves [of _ key_type path password force] by blast
  have b: "SaveRsaPrivateKey path (password_passed password) \<in> set evs \<or>
           SaveEccPrivateKey path (password_passed password) \<in> set evs" if ok: "fst ?m = Inr 0"
  proof -
    from ok have "?m = (Inr 0, snd ?m)" by (cases ?m) simp
    from main_success_trace [OF this]
    have "generation_steps (strip (lower key_type)) path password \<noteq> []" by simp
    with s ok expected_has_private_save [of key_type path password force evs]
    show ?thesis by simp
  qed
  from t a b show ?thesis by blast
qed

text \<open>
  The theorem at work on a run with the password \<open>s3cret\<close>.
\<close>

theorem password_reaches_save_routine_witness:
  "fst (main demo_platform ''warning'' ''rsa2048'' ''/tmp/out/key.pem'' (Some ''s3cret'')
          False empty_dir_world) = Inr 0 \<and>
   (\<exists>evs. trace (snd (main demo_platform ''warning'' ''rsa2048'' ''/tmp/out/key.pem''
                      (Some ''s3cret'') False empty_dir_world)) = evs \<and>
      (SaveRsaPrivateKey ''/tmp/out/key.pem'' (Some ''s3cret'') \<in> set evs \<or>
       SaveEccPrivateKey ''/tmp/out/key.pem'' (Some ''s3cret'') \<in> set evs))"
proof -
  have ok: "fst (main demo_platform ''warning'' ''rsa2048'' ''/tmp/out/key.pem''
                   (Some ''s3cret'') False empty_dir_world) = Inr 0"
    by (simp add: run_defs)
  have t0: "trace empty_dir_world = []"
    by (simp add: empty_dir_world_def)
  from password_reaches_save_routine [of demo_platform "''warning''" "''rsa2048''"
    "''/tmp/out/key.pem''" "Some ''s3cret''" False empty_dir_world] ok
  show ?thesis
    by (simp add: t0 password_passed_def)
qed

text \<open>
  C5. The claim that the private-key file is encrypted whenever a password is
  supplied fails on the code for the empty password: the file is written without
  encryption.
\<close>

theorem empty_password_file_counterexample:
  "fs (snd (main demo_platform ''warning'' ''secp256r1'' ''/tmp/out/dev.pem'' (Some [])
              True empty_dir_world)) ''/tmp/out/dev.pem'' = Some (PrivateKeyFile 9 None)"
  by (simp add: run_defs)

text \<open>
  C5, as the code has it. After a successful run the public-key path holds a
  public-key file, which has no password; and when the two paths differ, the
  private-key path holds a private-key file encrypted under the password when that is
  present and not empty, and not encrypted when it is absent or empty.
\<close>

theorem key_files_written:
  assumes "main L log_level key_type path password force w = (Inr r, w')"
  shows "(\<exists>q. fs w' (pub_key_path path) = Some (PublicKeyFile q)) \<and>
         (path \<noteq> pub_key_path path \<longrightarrow>
            (\<exists>k. fs w' path = Some (PrivateKeyFile k (password_passed password))))"
  using main_success [OF assms] by blast

text \<open>
  The theorem at work on the run of \<open>secp256r1\<close> with the password \<open>s3cret\<close> and
  force.
\<close>

theorem key_files_written_witness:
  "(\<exists>w'. main demo_platform ''warning'' ''secp256r1'' ''/tmp/out/dev.pem'' (Some ''s3cret'')
           True empty_dir_world = (Inr 0, w') \<and>
         (\<exists>q. fs w' ''/tmp/out/dev.pub'' = Some (PublicKeyFile q)) \<and>
         (\<exists>k. fs w' ''/tmp/out/dev.pem'' = Some (PrivateKeyFile k (Some ''s3cret''))))"
proof -
  let ?m = "main demo_platform ''warning'' ''secp256r1'' ''/tmp/out/dev.pem'' (Some ''s3cret'')
           True empty_dir_world"
  have ok: "fst ?m = Inr 0"
    by (simp add: run_defs)
  then have m: "?m = (Inr 0, snd ?m)" by (cases ?m) simp
  have p: "pub_key_path ''/tmp/out/dev.pem'' = ''/tmp/out/dev.pub''"
    by (simp add: pub_key_path_def splitext_def splitext_loop.simps Let_def)
  from key_files_written [OF m] have
    "(\<exists>q. fs (snd ?m) ''/tmp/out/dev.pub'' = Some (PublicKeyFile q)) \<and>
     (\<exists>k. fs (snd ?m) ''/tmp/out/dev.pem'' = Some (PrivateKeyFile k (Some ''s3cret'')))"
    by (simp add: p password_passed_def)
  with m show ?thesis by blast
qed




text \<open>
  C7. Let the choice type accept the token, and let the token not contain \<open>rsa\<close>
  after lower-casing and stripping. Then what \<open>main\<close> normalizes is the normalized
  token; the calls of the run are an initial segment of the checks followed by the
  elliptic-curve steps; when the checks pass, the elliptic-curve generator is called
  with the normalized token itself as curve name; and when moreover the generators
  and the two writes succeed, the run returns 0 and leaves both key files and the
  full trace. No RSA routine is called.
\<close>

theorem curve_name_passed_verbatim:
  assumes "choice_convert (key_type_choices m) t = Inr key_type"
    and "\<not> str_contains ''rsa'' (strip (lower t))"
  shows "strip (lower key_type) = strip (lower t) \<and>
         (\<exists>evs. trace (snd (cli L m log_level (Some t) path password force w)) = trace w @ evs \<and>
            prefix evs (check_steps path force @ ecc_steps (strip (lower t)) path password) \<and>
            (fst (cli L m log_level (Some t) path password force w) = Inr 0 \<longrightarrow>
               evs = check_steps path force @ ecc_steps (strip (lower t)) path password)) \<and>
         (parent_exists w path \<and> paths_free w path force \<longrightarrow>
            (\<exists>evs. trace (snd (cli L m log_level (Some t) path password force w)) =
                     trace w @ check_steps path force @
                     GenerateEccPrivateKey (strip (lower t)) # evs)) \<and>
         (\<forall>k q. parent_exists w path \<and> paths_free w path force \<and>
                 ecc_keygen L (strip (lower t)) = Inr k \<and> ecc_public L k = Inr q \<and>
                 \<not> io_fails L path \<and> \<not> io_fails L (pub_key_path path) \<longrightarrow>
            cli L m log_level (Some t) path password force w =
              (Inr 0,
               w\<lparr>fs := (fs w)(path \<mapsto> PrivateKeyFile k (password_passed password),
                               pub_key_path path \<mapsto> PublicKeyFile q),
                 trace := trace w @ check_steps path force @
                          ecc_steps (strip (lower t)) path password\<rparr>))"
proof -
  from choice_convert_Inr [OF assms(1)] have n: "strip (lower key_type) = strip (lower t)"
    by simp
  from assms(1) have c: "cli L m log_level (Some t) path password force w =
      main L log_level key_type path password force w"
    by (simp add: cli_def)
  from assms(2) n have "\<not> str_contains ''rsa'' (strip (lower key_type))" by simp
  from main_ecc_run [OF this, of L log_level path password force w] n
  show ?thesis unfolding c by simp
qed

text \<open>
  The theorem at work on the token \<open>SECP256R1\<close>, which the choice type accepts as
  \<open>secp256r1\<close>.
\<close>

theorem curve_name_passed_verbatim_witness:
  "choice_convert (key_type_choices (load_module [''secp256r1'', ''secp384r1'', ''secp521r1'']))
     ''SECP256R1'' = Inr ''secp256r1'' \<and>
   \<not> str_contains ''rsa'' (strip (lower ''SECP256R1'')) \<and>
   cli demo_platform (load_module [''secp256r1'', ''secp384r1'', ''secp521r1''])
     ''warning'' (Some ''SECP256R1'') ''/tmp/out/dev.pem'' (Some ''s3cret'') True
     empty_dir_world =
     (Inr 0,
      \<lparr>fs = [''/tmp/out'' \<mapsto> Directory,
              ''/tmp/out/dev.pem'' \<mapsto> PrivateKeyFile 9 (Some ''s3cret''),
              ''/tmp/out/dev.pub'' \<mapsto> PublicKeyFile 10],
       trace = [CheckDestinationDir ''/tmp/out/dev.pem'' True,
                CheckFileExists ''/tmp/out/dev.pem'' True,
                CheckFileExists ''/tmp/out/dev.pub'' True,
                GenerateEccPrivateKey ''secp256r1'', GenerateEccPublicKey,
                SaveEccPrivateKey ''/tmp/out/dev.pem'' (Some ''s3cret''),
                SaveEccPublicKey ''/tmp/out/dev.pub'']\<rparr>)"
proof -
  let ?m = "load_module [''secp256r1'', ''secp384r1'', ''secp521r1'']"
  have a: "choice_convert (key_type_choices ?m) ''SECP256R1'' = Inr ''secp256r1''"
    by (simp add: key_type_choices_load choice_convert_def lower_def lower_char_def)
  have b: "\<not> str_contains ''rsa'' (strip (lower ''SECP256R1''))"
    by (simp add: strip_def lower_def lower_char_def isspace_def)
  have n: "strip (lower ''SECP256R1'') = ''secp256r1''"
    by (simp add: strip_def lower_def lower_char_def isspace_def)
  have p: "pub_key_path ''/tmp/out/dev.pem'' = ''/tmp/out/dev.pub''"
    by (simp add: pub_key_path_def splitext_def splitext_loop.simps Let_def)
  have h: "parent_exists empty_dir_world ''/tmp/out/dev.pem'' \<and>
           paths_free empty_dir_world ''/tmp/out/dev.pem'' True \<and>
           ecc_keygen demo_platform (strip (lower ''SECP256R1'')) = Inr 9 \<and>
           ecc_public demo_platform 9 = Inr 10 \<and>
           \<not> io_fails demo_platform ''/tmp/out/dev.pem'' \<and>
           \<not> io_fails demo_platform (pub_key_path ''/tmp/out/dev.pem'')"
    by (simp add: n parent_exists_def paths_free_def dirname_def Let_def empty_dir_world_def
          demo_platform_def)
  from curve_name_passed_verbatim [OF a b, of demo_platform "''warning''" "''/tmp/out/dev.pem''"
    "Some ''s3cret''" True empty_dir_world] h
  have "cli demo_platform ?m ''warning'' (Some ''SECP256R1'') ''/tmp/out/dev.pem''
          (Some ''s3cret'') True empty_dir_world =
        (Inr 0,
         empty_dir_world\<lparr>fs := (fs empty_dir_world)
             (''/tmp/out/dev.pem'' \<mapsto> PrivateKeyFile 9 (password_passed (Some ''s3cret'')),
              pub_key_path ''/tmp/out/dev.pem'' \<mapsto> PublicKeyFile 10),
           trace := trace empty_dir_world @ check_steps ''/tmp/out/dev.pem'' True @
                    ecc_steps (strip (lower ''SECP256R1'')) ''/tmp/out/dev.pem''
                      (Some ''s3cret'')\<rparr>)"
    by blast
  with a b show ?thesis
    by (simp add: n p empty_dir_world_def check_steps_def ecc_steps_def password_passed_def)
qed

text \<open>
  C8. The calls of every run, in their order, are an initial segment of the fixed
  sequence: destination check, existence check of the private path, existence check
  of the public path, private-key generation, public-key generation, write of the
  private key, write of the public key. A successful run makes all of them.
\<close>

theorem steps_in_fixed_order:
  "\<exists>evs. trace (snd (main L log_level key_type path password force w)) = trace w @ evs \<and>
         prefix evs (expected_steps key_type path password force) \<and>
         (fst (main L log_level key_type path password force w) = Inr 0 \<longrightarrow>
            evs = expected_steps key_type path password force)"
  by (rule main_trace)

text \<open>The theorem at work on the run of \<open>rsa2048\<close> into an empty directory.\<close>

theorem steps_in_fixed_order_witness:
  "fst (main demo_platform ''warning'' ''rsa2048'' ''/tmp/out/key.pem'' None False
          empty_dir_world) = Inr 0 \<and>
   trace (snd (main demo_platform ''warning'' ''rsa2048'' ''/tmp/out/key.pem'' None False
          empty_dir_world)) =
     [CheckDestinationDir ''/tmp/out/key.pem'' False,
      CheckFileExists ''/tmp/out/key.pem'' False,
      CheckFileExists ''/tmp/out/key.pub'' False,
      GenerateRsaPrivateKey 2048, GenerateRsaPublicKey,
      SaveRsaPrivateKey ''/tmp/out/key.pem'' None, SaveRsaPublicKey ''/tmp/out/key.pub'']"
proof -
  have ok: "fst (main demo_platform ''warning'' ''rsa2048'' ''/tmp/out/key.pem'' None False
          empty_dir_world) = Inr 0"
    by (simp add: run_defs)
  have t0: "trace empty_dir_world = []"
    by (simp add: empty_dir_world_def)
  have ex: "expected_steps ''rsa2048'' ''/tmp/out/key.pem'' None False =
     [CheckDestinationDir ''/tmp/out/key.pem'' False,
      CheckFileExists ''/tmp/out/key.pem'' False,
      CheckFileExists ''/tmp/out/key.pub'' False,
      GenerateRsaPrivateKey 2048, GenerateRsaPublicKey,
      SaveRsaPrivateKey ''/tmp/out/key.pem'' None, SaveRsaPublicKey ''/tmp/out/key.pub'']"
    by (simp add: expected_steps_def generation_steps_def rsa_steps_def run_defs)
  from steps_in_fixed_order [of demo_platform "''warning''" "''rsa2048''" "''/tmp/out/key.pem''"
    None False empty_dir_world] ok
  show ?thesis by (simp add: t0 ex)
qed

text \<open>
  C9. The claim that the list of key types is computed once fails on the code: while
  the module is loaded \<open>get_list_of_supported_keys\<close> is called twice.
\<close>

theorem key_list_computed_twice:
  "get_list_calls (load_module [''secp256r1'', ''secp384r1'', ''secp521r1'']) \<noteq> 1"
  by (simp add: load_module_def call_get_list_of_supported_keys_def)

text \<open>
  C9, as the code has it. The choices of \<open>--key-type\<close> are exactly the three RSA
  tokens together with the names of the curve registry; the list is computed twice
  while the module is loaded, for the choice type and for the help text, with the
  same result; and the choices are the same after a run of the command.
\<close>

theorem advertised_key_types:
  "set (key_type_choices (load_module curve_types)) =
     {''rsa2048'', ''rsa3072'', ''rsa4096''} \<union> set curve_types \<and>
   key_type_help_options (load_module curve_types) =
     join '', '' (key_type_choices (load_module curve_types)) \<and>
   get_list_calls (load_module curve_types) = 2 \<and>
   key_type_choices
     (snd (run_process L curve_types log_level key_type_arg path password force w)) =
     key_type_choices (load_module curve_types)"
  by (auto simp: load_module_def call_get_list_of_supported_keys_def
        get_list_of_supported_keys_def run_process_def Let_def)

text \<open>
  The theorem at work on a registry of two curves.
\<close>

theorem advertised_key_types_witness:
  "set (key_type_choices (load_module [''secp256r1'', ''secp384r1''])) =
     {''rsa2048'', ''rsa3072'', ''rsa4096'', ''secp256r1'', ''secp384r1''} \<and>
   get_list_calls (load_module [''secp256r1'', ''secp384r1'']) = 2"
  using advertised_key_types [of "[''secp256r1'', ''secp384r1'']" demo_platform "''warning''"
    None "''/tmp/out/key.pem''" None False empty_dir_world]
  by auto

text \<open>
  C10. When the last component of the private-key path has no dot, the public-key
  path is the private-key path followed by \<open>.pub\<close>; it differs from the private-key
  path, and a successful run leaves the private key in the one file and the public
  key in the other.
\<close>

theorem no_extension_appends_pub:
  assumes "CHR ''.'' \<notin> set (basename path)"
  shows "pub_key_path path = path @ ''.pub'' \<and> pub_key_path path \<noteq> path \<and>
         (\<forall>r w'. main L log_level key_type path password force w = (Inr r, w') \<longrightarrow>
            (\<exists>k q. fs w' path = Some (PrivateKeyFile k (password_passed password)) \<and>
                   fs w' (path @ ''.pub'') = Some (PublicKeyFile q)))"
proof -
  from splitext_no_dot [OF assms] have p: "pub_key_path path = path @ ''.pub''"
    by (simp add: pub_key_path_def)
  then have d: "pub_key_path path \<noteq> path" by simp
  have "\<exists>k q. fs w' path = Some (PrivateKeyFile k (password_passed password)) \<and>
              fs w' (path @ ''.pub'') = Some (PublicKeyFile q)"
    if "main L log_level key_type path password force w = (Inr r, w')" for r w'
    using main_success [OF that] d by (auto simp: p)
  with p d show ?thesis by blast
qed

text \<open>
  The theorem at work on \<open>/tmp/out/key\<close>.
\<close>

theorem no_extension_appends_pub_witness:
  "CHR ''.'' \<notin> set (basename ''/tmp/out/key'') \<and>
   pub_key_path ''/tmp/out/key'' = ''/tmp/out/key.pub'' \<and>
   (\<exists>w'. main demo_platform ''warning'' ''rsa2048'' ''/tmp/out/key'' None False
           empty_dir_world = (Inr 0, w') \<and>
         (\<exists>k q. fs w' ''/tmp/out/key'' = Some (PrivateKeyFile k None) \<and>
                fs w' ''/tmp/out/key.pub'' = Some (PublicKeyFile q)))"
proof -
  let ?m = "main demo_platform ''warning'' ''rsa2048'' ''/tmp/out/key'' None False
              empty_dir_world"
  have a: "CHR ''.'' \<notin> set (basename ''/tmp/out/key'')"
    by (simp add: basename_def)
  have ok: "fst ?m = Inr 0"
    by (simp add: run_defs)
  then have m: "?m = (Inr 0, snd ?m)" by (cases ?m) simp
  from no_extension_appends_pub [OF a, of demo_platform "''warning''" "''rsa2048''" None False
    empty_dir_world] m
  have "pub_key_path ''/tmp/out/key'' = ''/tmp/out/key.pub'' \<and>
        (\<exists>k q. fs (snd ?m) ''/tmp/out/key'' = Some (PrivateKeyFile k None) \<and>
               fs (snd ?m) ''/tmp/out/key.pub'' = Some (PublicKeyFile q))"
    by (simp add: password_passed_def)
  with a m show ?thesis by blast
qed

end
